theory Spec2Isabelle
  imports Main "HOL-Library.Word" "HOL-Library.List_Lexorder"
begin

text \<open>
  A model of \<open>run.py\<close>, a batch script that reads the spreadsheets of a directory and
  copies their valid data rows into one output sheet. The model covers the helper
  \<open>prep_etd\<close> and the batch loop with its per-file and per-row steps. The workbooks
  (openpyxl), the builtin \<open>str\<close> and the list of input files are taken from outside.
\<close>

section \<open>Python values and strings\<close>

text \<open>
  A Python \<open>str\<close> is a sequence of Unicode code points, so a string is a list of code
  points (natural numbers). \<open>py\<close> turns an ASCII literal into such a string.
\<close>

type_synonym pystr = "nat list"

definition py :: "string \<Rightarrow> pystr" where
  "py s = map of_char s"

text \<open>
  The values a cell of a workbook can hold, by Python class: \<open>None\<close>, \<open>str\<close>,
  \<open>bool\<close>, \<open>int\<close>, \<open>float\<close> (the bits of the IEEE double; the program never looks
  inside one), and any other class (openpyxl yields \<open>datetime\<close>, \<open>time\<close> and
  \<open>timedelta\<close> objects for date-formatted cells), kept opaque.
\<close>

datatype pyval =
    PyNone
  | PyStr pystr
  | PyBool bool
  | PyInt int
  | PyFloat "64 word"
  | PyOther nat

text \<open>\<open>isinstance(v, str)\<close>.\<close>

fun isinstance_str :: "pyval \<Rightarrow> bool" where
  "isinstance_str (PyStr s) = True"
| "isinstance_str v = False"

text \<open>
  \<open>isinstance(v, (int, float))\<close>. In Python \<open>bool\<close> is a subclass of \<open>int\<close>, so
  \<open>True\<close> and \<open>False\<close> are instances of \<open>int\<close>.
\<close>

fun isinstance_int_float :: "pyval \<Rightarrow> bool" where
  "isinstance_int_float (PyInt i) = True"
| "isinstance_int_float (PyBool b) = True"
| "isinstance_int_float (PyFloat f) = True"
| "isinstance_int_float v = False"

text \<open>
  The code points Python treats as whitespace, both in \<open>str.strip()\<close> without argument
  and in the class \<open>\s\<close> of a \<open>str\<close> pattern: U+0009..U+000D, U+001C..U+001F, U+0020,
  U+0085, U+00A0, U+1680, U+2000..U+200A, U+2028, U+2029, U+202F, U+205F, U+3000.
\<close>

definition is_space :: "nat \<Rightarrow> bool" where
  "is_space c \<longleftrightarrow>
     (9 \<le> c \<and> c \<le> 13) \<or> (28 \<le> c \<and> c \<le> 31) \<or> c = 32 \<or> c = 133 \<or> c = 160 \<or>
     c = 5760 \<or> (8192 \<le> c \<and> c \<le> 8202) \<or> c = 8232 \<or> c = 8233 \<or> c = 8239 \<or>
     c = 8287 \<or> c = 12288"

text \<open>\<open>s.strip()\<close>: whitespace removed at both ends.\<close>

definition strip :: "pystr \<Rightarrow> pystr" where
  "strip s = rev (dropWhile is_space (rev (dropWhile is_space s)))"

section \<open>Regular expressions: the fragment of \<open>re\<close> the program uses\<close>

text \<open>
  Character classes: \<open>[0-9]\<close>, \<open>\s\<close>, an escaped literal such as \<open>\.\<close> or \<open>\(\<close>,
  and a negated single character such as \<open>[^)]\<close>.
\<close>

datatype cclass = Digit09 | Space | Lit nat | NotLit nat

fun in_class :: "cclass \<Rightarrow> nat \<Rightarrow> bool" where
  "in_class Digit09 c = (48 \<le> c \<and> c \<le> 57)"
| "in_class Space c = is_space c"
| "in_class (Lit x) c = (c = x)"
| "in_class (NotLit x) c = (c \<noteq> x)"

text \<open>
  Patterns: one character of a class; a greedy repetition \<open>c{m,n}\<close> of a class
  (\<open>c?\<close> is \<open>c{0,1}\<close>, \<open>c*\<close> is \<open>c{0,}\<close>, \<open>c+\<close> is \<open>c{1,}\<close>, \<open>c{4}\<close> is \<open>c{4,4}\<close>);
  concatenation; a capturing group.
\<close>

datatype rx =
    Cls cclass
  | Rep cclass nat "nat option"
  | Seq rx rx
  | Grp rx

text \<open>
  \<open>rmatch r s\<close> lists every way in which \<open>r\<close> matches a prefix of \<open>s\<close>, in the order in
  which the backtracking matcher of \<open>re\<close> tries them: a greedy repetition takes the
  longest run first and gives characters back one at a time. Each way is the texts of the
  capturing groups, in the order of their opening parentheses, and the input left over.
\<close>

fun rmatch :: "rx \<Rightarrow> pystr \<Rightarrow> (pystr list \<times> pystr) list" where
  "rmatch (Cls c) s =
     (case s of [] \<Rightarrow> [] | x # xs \<Rightarrow> if in_class c x then [([], xs)] else [])"
| "rmatch (Rep c m n) s =
     (let k = length (takeWhile (in_class c) s);
          hi = (case n of None \<Rightarrow> k | Some n' \<Rightarrow> min n' k)
      in map (\<lambda>j. ([], drop j s)) (rev [m..<Suc hi]))"
| "rmatch (Seq a b) s =
     concat (map (\<lambda>(g1, r1). map (\<lambda>(g2, r2). (g1 @ g2, r2)) (rmatch b r1)) (rmatch a s))"
| "rmatch (Grp a) s =
     map (\<lambda>(g, r). (take (length s - length r) s # g, r)) (rmatch a s)"

text \<open>
  \<open>re.search(pattern, s)\<close>: the first match at the leftmost position where the pattern
  matches, or \<open>None\<close>. A match object is represented by the texts of its groups.
\<close>

fun re_search :: "rx \<Rightarrow> pystr \<Rightarrow> pystr list option" where
  "re_search p [] = (case rmatch p [] of [] \<Rightarrow> None | m # ms \<Rightarrow> Some (fst m))"
| "re_search p (x # xs) =
     (case rmatch p (x # xs) of [] \<Rightarrow> re_search p xs | m # ms \<Rightarrow> Some (fst m))"

datatype exn =
    FileNotFoundError
  | KeyError
  | BadZipFile
  | ValueError
  | IndexError
  | NameError
  | OtherException nat

text \<open>\<open>match.group(i)\<close> for \<open>i \<ge> 1\<close>; a group the pattern does not have is an IndexError.\<close>

definition group :: "pystr list \<Rightarrow> nat \<Rightarrow> exn + pystr" where
  "group m i = (if 1 \<le> i \<and> i \<le> length m then Inr (m ! (i - 1)) else Inl IndexError)"

text \<open>
  The two patterns of \<open>prep_etd\<close>:
  \<^verbatim>\<open>([0-9]{4}\.[0-9]{1,2}\.[0-9]{1,2})\.?\s*\(([^)]+)\)\<close> and
  \<^verbatim>\<open>([0-9]{4}\.[0-9]{1,2}\.[0-9]{1,2})\s*\(([^)]+)\)\<close>.
\<close>

definition date_group :: rx where
  "date_group =
     Grp (Seq (Rep Digit09 4 (Some 4)) (Seq (Cls (Lit 46)) (Seq (Rep Digit09 1 (Some 2))
         (Seq (Cls (Lit 46)) (Rep Digit09 1 (Some 2))))))"

definition ba_tail :: rx where
  "ba_tail =
     Seq (Rep Space 0 None) (Seq (Cls (Lit 40)) (Seq (Grp (Rep (NotLit 41) 1 None))
         (Cls (Lit 41))))"

definition etd_pattern :: rx where
  "etd_pattern = Seq date_group (Seq (Rep (Lit 46) 0 (Some 1)) ba_tail)"

definition etd_pattern_alt :: rx where
  "etd_pattern_alt = Seq date_group ba_tail"

section \<open>Dates: \<open>datetime.strptime\<close> and \<open>strftime\<close>\<close>

text \<open>\<open>s.split(c)\<close> for a one-character separator.\<close>

fun split_on :: "nat \<Rightarrow> pystr \<Rightarrow> pystr list" where
  "split_on c [] = [[]]"
| "split_on c (x # xs) =
     (if x = c then [] # split_on c xs
      else (case split_on c xs of [] \<Rightarrow> [[x]] | p # ps \<Rightarrow> (x # p) # ps))"

definition is_digits :: "pystr \<Rightarrow> bool" where
  "is_digits s = list_all (in_class Digit09) s"

definition int_of_digits :: "pystr \<Rightarrow> nat" where
  "int_of_digits s = foldl (\<lambda>a c. 10 * a + (c - 48)) 0 s"

definition is_leap :: "nat \<Rightarrow> bool" where
  "is_leap y \<longleftrightarrow> y mod 4 = 0 \<and> (y mod 100 \<noteq> 0 \<or> y mod 400 = 0)"

definition days_in_month :: "nat \<Rightarrow> nat \<Rightarrow> nat" where
  "days_in_month y m =
     (if m = 2 then (if is_leap y then 29 else 28)
      else if m = 4 \<or> m = 6 \<or> m = 9 \<or> m = 11 then 30 else 31)"

text \<open>
  \<open>datetime.strptime(s, "%Y.%m.%d")\<close> on the texts the first group of the patterns can
  capture (ASCII digits and dots): a year of four digits, a month and a day of one or two
  digits, separated by dots, that name a date of the calendar (years 1 to 9999); anything
  else is a ValueError. The result is (year, month, day).
\<close>

definition strptime_Ymd :: "pystr \<Rightarrow> exn + (nat \<times> nat \<times> nat)" where
  "strptime_Ymd s =
     (case split_on 46 s of
        [ys, ms, ds] \<Rightarrow>
          if length ys = 4 \<and> is_digits ys \<and>
             (length ms = 1 \<or> length ms = 2) \<and> is_digits ms \<and>
             (length ds = 1 \<or> length ds = 2) \<and> is_digits ds
          then
            (let y = int_of_digits ys; m = int_of_digits ms; d = int_of_digits ds
             in if 1 \<le> y \<and> 1 \<le> m \<and> m \<le> 12 \<and> 1 \<le> d \<and> d \<le> days_in_month y m
                then Inr (y, m, d) else Inl ValueError)
          else Inl ValueError
      | _ \<Rightarrow> Inl ValueError)"

definition month_abbr :: "nat \<Rightarrow> pystr" where
  "month_abbr m =
     py ([''Jan'', ''Feb'', ''Mar'', ''Apr'', ''May'', ''Jun'',
          ''Jul'', ''Aug'', ''Sep'', ''Oct'', ''Nov'', ''Dec''] ! (m - 1))"

text \<open>
  \<open>date_obj.strftime("%d-%b")\<close>: the day on two digits, a hyphen, the abbreviated month
  name (the program sets no locale, so the names are the English ones).
\<close>

definition strftime_d_b :: "nat \<times> nat \<times> nat \<Rightarrow> pystr" where
  "strftime_d_b date_obj =
     (case date_obj of (y, m, d) \<Rightarrow> [48 + d div 10, 48 + d mod 10] @ [45] @ month_abbr m)"

section \<open>Logging\<close>

text \<open>
  One constructor for each \<open>logging\<close> call of the program, carrying the values its
  message interpolates.
\<close>

datatype level = INFO | WARNING | ERROR

datatype log_msg =
    EtdNotString pyval
  | EtdFormatMismatch pystr
  | EtdDateError pystr pystr
  | PrepEtdException pystr exn
  | FileStart pystr
  | NoSheets pystr
  | UsingFirstSheet pystr pystr
  | NoOrderNo pystr
  | I11Empty
  | EtdBaFailed pyval
  | EtdFailed pyval "pystr option"
  | BaFailed pyval "pystr option"
  | CommonData pystr pyval
  | RowValid nat nat
  | RowSkipped nat pyval pyval
  | NoDataInBlock pystr
  | NoValidData pystr
  | ErrFileNotFound pystr
  | ErrKeyError pystr exn
  | ErrBadZip pystr
  | ErrUnexpected pystr exn

type_synonym log_entry = "level \<times> log_msg"

section \<open>The helper \<open>prep_etd\<close>\<close>

text \<open>
  The two search attempts of \<open>prep_etd\<close>: the first pattern, and the alternative only
  when the first finds nothing.
\<close>

definition etd_match :: "pystr \<Rightarrow> pystr list option" where
  "etd_match data =
     (case re_search etd_pattern data of
        Some m \<Rightarrow> Some m
      | None \<Rightarrow> re_search etd_pattern_alt data)"

text \<open>
  The \<open>try\<close> block of \<open>prep_etd\<close> on a match object: a ValueError keeps the BA, any other
  exception gives \<open>(None, None)\<close>.
\<close>

definition etd_of_match :: "pystr \<Rightarrow> pystr list \<Rightarrow> (pystr option \<times> pystr option) \<times> log_entry list" where
  "etd_of_match data m =
     (case group m 1 of
        Inl e \<Rightarrow> ((None, None), [(ERROR, PrepEtdException data e)])
      | Inr date_str_raw \<Rightarrow>
          (case group m 2 of
             Inl e \<Rightarrow> ((None, None), [(ERROR, PrepEtdException data e)])
           | Inr ba_str \<Rightarrow>
               (case strptime_Ymd date_str_raw of
                  Inr date_obj \<Rightarrow> ((Some (strftime_d_b date_obj), Some ba_str), [])
                | Inl e \<Rightarrow>
                    if e = ValueError
                    then ((None, Some ba_str), [(WARNING, EtdDateError date_str_raw data)])
                    else ((None, None), [(ERROR, PrepEtdException data e)]))))"

text \<open>\<open>prep_etd(data)\<close>: the pair it returns and the messages it logs.\<close>

definition prep_etd :: "pyval \<Rightarrow> (pystr option \<times> pystr option) \<times> log_entry list" where
  "prep_etd data =
     (case data of
        PyStr s \<Rightarrow>
          (case etd_match s of
             None \<Rightarrow> ((None, None), [(WARNING, EtdFormatMismatch s)])
           | Some m \<Rightarrow> etd_of_match s m)
      | _ \<Rightarrow> ((None, None), [(WARNING, EtdNotString data)]))"

section \<open>Configuration\<close>

definition INPUT_DIR :: pystr where
  "INPUT_DIR = py ''input''"

definition START_ROW_TEMPLATE :: nat where
  "START_ROW_TEMPLATE = 7"

definition DATA_BLOCK_START_ROW :: nat where
  "DATA_BLOCK_START_ROW = 19"

definition DATA_BLOCK_END_ROW :: nat where
  "DATA_BLOCK_END_ROW = 1000"

section \<open>Workbooks and the environment\<close>

text \<open>
  A sheet gives the value of the cell at a row and a column (both counted from 1); a
  workbook is the list of its sheets with their titles, in order. Reading a cell is a
  primitive that always returns a value (\<open>None\<close> for an empty cell).
\<close>

type_synonym sheet = "nat \<Rightarrow> nat \<Rightarrow> pyval"

type_synonym workbook = "(pystr \<times> sheet) list"

text \<open>\<open>workbook[key]\<close>: the first sheet with that title, KeyError when there is none.\<close>

fun wb_getitem :: "workbook \<Rightarrow> pystr \<Rightarrow> exn + sheet" where
  "wb_getitem [] key = Inl KeyError"
| "wb_getitem ((title, sh) # rest) key =
     (if title = key then Inr sh else wb_getitem rest key)"

text \<open>
  What the program takes from outside: \<open>openpyxl.load_workbook\<close> on a path, which
  returns a workbook or raises, and the builtin \<open>str\<close> on values that are not strings.
\<close>

record env =
  load_workbook :: "pystr \<Rightarrow> exn + workbook"
  builtin_str :: "pyval \<Rightarrow> pystr"

definition py_str :: "env \<Rightarrow> pyval \<Rightarrow> pystr" where
  "py_str E v = (case v of PyStr s \<Rightarrow> s | _ \<Rightarrow> builtin_str E v)"

text \<open>\<open>os.path.join(a, b)\<close> on POSIX.\<close>

definition path_join :: "pystr \<Rightarrow> pystr \<Rightarrow> pystr" where
  "path_join a b =
     (if b \<noteq> [] \<and> hd b = 47 then b
      else if a = [] \<or> last a = 47 then a @ b
      else a @ [47] @ b)"

text \<open>
  The names bound at module level while the batch loop runs: the imports
  (\<open>openpyxl\<close>, \<open>re\<close>, \<open>datetime\<close>, \<open>os\<close>, \<open>logging\<close>) and the names the script assigns.
  A name that is neither among them nor a builtin is unbound; \<open>zipfile\<close> is not a
  builtin.
\<close>

definition module_globals :: "string list" where
  "module_globals =
     [''openpyxl'', ''re'', ''datetime'', ''os'', ''logging'',
      ''INPUT_DIR'', ''OUTPUT_TEMPLATE'', ''OUTPUT_FILLED'', ''START_ROW_TEMPLATE'',
      ''DATA_BLOCK_START_ROW'', ''DATA_BLOCK_END_ROW'', ''prep_etd'', ''output_dir'',
      ''template_wb'', ''template_sheet'', ''all_files_in_dir'', ''input_files'',
      ''current_output_row'', ''processed_files_count'', ''filename'', ''filepath'',
      ''file_had_valid_data'', ''workbook'', ''sheetnames'', ''sheet'', ''ORDER_NO'',
      ''etd_data'', ''REMARK'', ''ETD'', ''BA'', ''data_found_in_block'', ''r'',
      ''DETAIL'', ''COLOR'', ''PRICE'', ''SQNTY'', ''has_data'', ''price_is_numeric'',
      ''sqnty_is_numeric'', ''e'']"

section \<open>The state of the batch\<close>

text \<open>
  The program only ever writes to \<open>template_sheet\<close>, so the sheet is represented by the
  writes made to it, in order. One write event is the eight cell assignments of one
  accepted row: the destination row, the column letter and value of each assignment, and
  the values of the loop variables \<open>filename\<close> and \<open>r\<close> at that moment.
\<close>

record write_event =
  src_file :: pystr
  src_row :: nat
  dest_row :: nat
  cells :: "(char \<times> pyval) list"

record state =
  writes :: "write_event list"
  current_output_row :: nat
  processed_files_count :: nat
  file_had_valid_data :: bool
  data_found_in_block :: bool
  log :: "log_entry list"

definition add_log :: "log_entry \<Rightarrow> state \<Rightarrow> state" where
  "add_log entry st = st\<lparr>log := log st @ [entry]\<rparr>"

text \<open>The per-file values copied into every output row of the file.\<close>

record file_ctx =
  ETD :: "pystr option"
  BA :: "pystr option"
  ORDER_NO :: pystr
  REMARK :: pyval

definition opt_val :: "pystr option \<Rightarrow> pyval" where
  "opt_val x = (case x of None \<Rightarrow> PyNone | Some s \<Rightarrow> PyStr s)"

section \<open>The row validator\<close>

text \<open>
  \<^verbatim>\<open>any(val is not None and (not isinstance(val, str) or val.strip()) for val in [...])\<close>;
  a string is true when it is not empty.
\<close>

definition has_data :: "pyval \<Rightarrow> pyval \<Rightarrow> pyval \<Rightarrow> pyval \<Rightarrow> bool" where
  "has_data DETAIL COLOR PRICE SQNTY =
     list_ex (\<lambda>val. val \<noteq> PyNone \<and> (case val of PyStr s \<Rightarrow> strip s \<noteq> [] | _ \<Rightarrow> True))
       [DETAIL, COLOR, PRICE, SQNTY]"

text \<open>
  The test of the program on price and quantity:
  \<^verbatim>\<open>isinstance(PRICE, (int, float))\<close> and \<^verbatim>\<open>isinstance(SQNTY, (int, float))\<close>.
\<close>

definition is_valid_numeric :: "pyval \<Rightarrow> pyval \<Rightarrow> bool" where
  "is_valid_numeric PRICE SQNTY =
     (let price_is_numeric = isinstance_int_float PRICE;
          sqnty_is_numeric = isinstance_int_float SQNTY
      in price_is_numeric \<and> sqnty_is_numeric)"

section \<open>One row of the data block\<close>

definition process_row :: "pystr \<Rightarrow> sheet \<Rightarrow> file_ctx \<Rightarrow> nat \<Rightarrow> state \<Rightarrow> state" where
  "process_row filename sheet ctx r st =
     (let DETAIL = sheet r 7; COLOR = sheet r 8; PRICE = sheet r 9; SQNTY = sheet r 10
      in if has_data DETAIL COLOR PRICE SQNTY then
           (let st1 = st\<lparr>data_found_in_block := True\<rparr>
            in if is_valid_numeric PRICE SQNTY then
                 st1\<lparr>file_had_valid_data := True,
                     log := log st1 @ [(INFO, RowValid r (current_output_row st1))],
                     writes := writes st1 @
                       [\<lparr>src_file = filename, src_row = r,
                         dest_row = current_output_row st1,
                         cells = [(CHR ''B'', opt_val (ETD ctx)), (CHR ''C'', opt_val (BA ctx)),
                                  (CHR ''E'', PyStr (ORDER_NO ctx)), (CHR ''F'', COLOR),
                                  (CHR ''G'', SQNTY), (CHR ''I'', PRICE),
                                  (CHR ''K'', DETAIL), (CHR ''P'', REMARK ctx)]\<rparr>],
                     current_output_row := current_output_row st1 + 1\<rparr>
               else add_log (WARNING, RowSkipped r PRICE SQNTY) st1)
         else st)"

text \<open>\<^verbatim>\<open>for r in range(DATA_BLOCK_START_ROW, DATA_BLOCK_END_ROW + 1)\<close>.\<close>

definition scan_block :: "pystr \<Rightarrow> sheet \<Rightarrow> file_ctx \<Rightarrow> state \<Rightarrow> state" where
  "scan_block filename sheet ctx st =
     fold (process_row filename sheet ctx)
       [DATA_BLOCK_START_ROW..<DATA_BLOCK_END_ROW + 1] st"

section \<open>One input file\<close>

text \<open>Reading ETD and BA from the value of cell I11.\<close>

definition extract_etd :: "env \<Rightarrow> pyval \<Rightarrow> state \<Rightarrow> (pystr option \<times> pystr option) \<times> state" where
  "extract_etd E etd_data st =
     (if etd_data = PyNone then ((None, None), add_log (WARNING, I11Empty) st)
      else
        (case prep_etd (PyStr (py_str E etd_data)) of
           ((etd, ba), msgs) \<Rightarrow>
             (let st1 = st\<lparr>log := log st @ msgs\<rparr>
              in if etd = None \<and> ba = None then
                   ((etd, ba), add_log (WARNING, EtdBaFailed etd_data) st1)
                 else if etd = None then
                   ((etd, ba), add_log (WARNING, EtdFailed etd_data ba) st1)
                 else if ba = None then
                   ((etd, ba), add_log (WARNING, BaFailed etd_data etd) st1)
                 else ((etd, ba), st1))))"

text \<open>The summary warnings after the scan of a file.\<close>

definition block_summary :: "pystr \<Rightarrow> state \<Rightarrow> state" where
  "block_summary filename st =
     (if \<not> data_found_in_block st then add_log (WARNING, NoDataInBlock filename) st
      else if \<not> file_had_valid_data st \<and> data_found_in_block st then
        add_log (WARNING, NoValidData filename) st
      else st)"

text \<open>The body of the \<open>try\<close> once the data sheet and ORDER_NO are known.\<close>

definition extract_rows :: "env \<Rightarrow> pystr \<Rightarrow> sheet \<Rightarrow> pystr \<Rightarrow> state \<Rightarrow> state" where
  "extract_rows E filename sheet order_no st =
     (let etd_data = sheet 11 9;
          remark = sheet 22 1
      in case extract_etd E etd_data st of
           ((etd, ba), st1) \<Rightarrow>
             (let st2 = add_log (INFO, CommonData order_no remark) st1;
                  st3 = st2\<lparr>data_found_in_block := False\<rparr>;
                  st4 = scan_block filename sheet
                          \<lparr>ETD = etd, BA = ba, ORDER_NO = order_no, REMARK = remark\<rparr> st3;
                  st5 = block_summary filename st4
              in st5\<lparr>processed_files_count := processed_files_count st5 + 1\<rparr>))"

text \<open>
  How a statement ends: normally (also through \<open>continue\<close>), or with an exception that
  propagates, in the state reached.
\<close>

datatype outcome = Normal state | Raised exn state

text \<open>The body of the \<open>try\<close> statement.\<close>

definition try_body :: "env \<Rightarrow> pystr \<Rightarrow> state \<Rightarrow> outcome" where
  "try_body E filename st =
     (case load_workbook E (path_join INPUT_DIR filename) of
        Inl e \<Rightarrow> Raised e st
      | Inr workbook \<Rightarrow>
          (let sheetnames = map fst workbook
           in if sheetnames = [] then Normal (add_log (WARNING, NoSheets filename) st)
              else
                (case wb_getitem workbook (hd sheetnames) of
                   Inl e \<Rightarrow> Raised e st
                 | Inr sheet \<Rightarrow>
                     (let st1 = add_log (INFO, UsingFirstSheet filename (hd sheetnames)) st
                      in case (if sheetnames \<noteq> [] then Some (last sheetnames) else None) of
                           None \<Rightarrow> Normal (add_log (WARNING, NoOrderNo filename) st1)
                         | Some order_no \<Rightarrow>
                             Normal (extract_rows E filename sheet order_no st1)))))"

text \<open>
  The \<open>except\<close> clauses, tried in order. The third one names \<open>zipfile.BadZipFile\<close>:
  the name \<open>zipfile\<close> is looked up when an exception reaches that clause, and a name that
  is not bound raises NameError, which leaves the \<open>try\<close> statement.
\<close>

definition except_clauses :: "pystr \<Rightarrow> exn \<Rightarrow> state \<Rightarrow> outcome" where
  "except_clauses filename e st =
     (if e = FileNotFoundError then
        Normal (add_log (ERROR, ErrFileNotFound (path_join INPUT_DIR filename)) st)
      else if e = KeyError then
        Normal (add_log (ERROR, ErrKeyError filename e) st)
      else if ''zipfile'' \<notin> set module_globals then Raised NameError st
      else if e = BadZipFile then
        Normal (add_log (ERROR, ErrBadZip filename) st)
      else Normal (add_log (ERROR, ErrUnexpected filename e) st))"

text \<open>One iteration of \<^verbatim>\<open>for filename in sorted(input_files)\<close>.\<close>

definition process_file :: "env \<Rightarrow> pystr \<Rightarrow> state \<Rightarrow> outcome" where
  "process_file E filename st =
     (let st1 = add_log (INFO, FileStart filename) st;
          st2 = st1\<lparr>file_had_valid_data := False\<rparr>
      in case try_body E filename st2 of
           Normal st' \<Rightarrow> Normal st'
         | Raised e st' \<Rightarrow> except_clauses filename e st')"

section \<open>The batch loop\<close>

fun batch_loop :: "env \<Rightarrow> pystr list \<Rightarrow> state \<Rightarrow> outcome" where
  "batch_loop E [] st = Normal st"
| "batch_loop E (filename # rest) st =
     (case process_file E filename st of
        Normal st' \<Rightarrow> batch_loop E rest st'
      | Raised e st' \<Rightarrow> Raised e st')"

text \<open>
  The state when the loop starts. The two flags are assigned before they are read, so
  their value here does not matter.
\<close>

definition initial_state :: state where
  "initial_state =
     \<lparr>writes = [], current_output_row = START_ROW_TEMPLATE, processed_files_count = 0,
      file_had_valid_data = False, data_found_in_block = False, log = []\<rparr>"

definition run :: "env \<Rightarrow> pystr list \<Rightarrow> outcome" where
  "run E input_files = batch_loop E (sort input_files) initial_state"

fun final_state :: "outcome \<Rightarrow> state" where
  "final_state (Normal st) = st"
| "final_state (Raised e st) = st"

section \<open>Notions used to state the properties\<close>

text \<open>The number of capturing groups of a pattern.\<close>

fun ngroups :: "rx \<Rightarrow> nat" where
  "ngroups (Cls c) = 0"
| "ngroups (Rep c m n) = 0"
| "ngroups (Seq a b) = ngroups a + ngroups b"
| "ngroups (Grp a) = Suc (ngroups a)"

text \<open>
  \<open>prep_etd\<close> with a single search attempt, the first pattern alone; everything else is
  as in \<open>prep_etd\<close>.
\<close>

definition prep_etd_first_only :: "pyval \<Rightarrow> (pystr option \<times> pystr option) \<times> log_entry list" where
  "prep_etd_first_only data =
     (case data of
        PyStr s \<Rightarrow>
          (case re_search etd_pattern s of
             None \<Rightarrow> ((None, None), [(WARNING, EtdFormatMismatch s)])
           | Some m \<Rightarrow> etd_of_match s m)
      | _ \<Rightarrow> ((None, None), [(WARNING, EtdNotString data)]))"

text \<open>
  A value of an intrinsically numeric kind in the sense of the specification: an integer
  or a real, not a boolean and not a text.
\<close>

definition intrinsically_numeric :: "pyval \<Rightarrow> bool" where
  "intrinsically_numeric v = (case v of PyInt i \<Rightarrow> True | PyFloat f \<Rightarrow> True | _ \<Rightarrow> False)"

definition is_bool :: "pyval \<Rightarrow> bool" where
  "is_bool v = (case v of PyBool b \<Rightarrow> True | _ \<Rightarrow> False)"

text \<open>A text with no character other than whitespace (the empty text included).\<close>

definition purely_whitespace :: "pystr \<Rightarrow> bool" where
  "purely_whitespace s = list_all is_space s"

text \<open>
  A row of a sheet is accepted when its cells in columns G to J (7 to 10) satisfy both
  \<open>has_data\<close> and \<open>is_valid_numeric\<close>.
\<close>

definition row_accepted :: "sheet \<Rightarrow> nat \<Rightarrow> bool" where
  "row_accepted sheet r \<longleftrightarrow>
     has_data (sheet r 7) (sheet r 8) (sheet r 9) (sheet r 10) \<and>
     is_valid_numeric (sheet r 9) (sheet r 10)"

text \<open>The rows the scan visits, in its order, and those of them that are accepted.\<close>

definition scanned_rows :: "nat list" where
  "scanned_rows = [DATA_BLOCK_START_ROW..<DATA_BLOCK_END_ROW + 1]"

definition valid_rows :: "sheet \<Rightarrow> nat list" where
  "valid_rows sheet = filter (row_accepted sheet) scanned_rows"

text \<open>
  The data sheet of a file that is processed to the end: the workbook loads and has at
  least one sheet, the first of which is the data sheet.
\<close>

definition data_sheet :: "env \<Rightarrow> pystr \<Rightarrow> sheet option" where
  "data_sheet E filename =
     (case load_workbook E (path_join INPUT_DIR filename) of
        Inl e \<Rightarrow> None
      | Inr workbook \<Rightarrow> (case workbook of [] \<Rightarrow> None | (title, sh) # rest \<Rightarrow> Some sh))"

text \<open>
  A file aborts the run when loading it raises an exception that is neither
  FileNotFoundError nor KeyError.
\<close>

definition file_aborts :: "env \<Rightarrow> pystr \<Rightarrow> bool" where
  "file_aborts E filename =
     (case load_workbook E (path_join INPUT_DIR filename) of
        Inl e \<Rightarrow> e \<noteq> FileNotFoundError \<and> e \<noteq> KeyError
      | Inr workbook \<Rightarrow> False)"

text \<open>
  The files whose iteration ends normally, in processing order: the sorted files before
  the first one that aborts the run. Those of them that are processed to the end are the
  successfully processed files.
\<close>

definition files_completed :: "env \<Rightarrow> pystr list \<Rightarrow> pystr list" where
  "files_completed E input_files = takeWhile (\<lambda>f. \<not> file_aborts E f) (sort input_files)"

definition successfully_processed :: "env \<Rightarrow> pystr list \<Rightarrow> pystr list" where
  "successfully_processed E input_files =
     filter (\<lambda>f. data_sheet E f \<noteq> None) (files_completed E input_files)"


text \<open>The accepted rows of a file and of a batch, each with the name of its file.\<close>

definition file_rows :: "env \<Rightarrow> pystr \<Rightarrow> (pystr \<times> nat) list" where
  "file_rows E filename =
     (case data_sheet E filename of
        None \<Rightarrow> []
      | Some sh \<Rightarrow> map (Pair filename) (valid_rows sh))"

definition expected_rows :: "env \<Rightarrow> pystr list \<Rightarrow> (pystr \<times> nat) list" where
  "expected_rows E input_files = concat (map (file_rows E) (files_completed E input_files))"

definition origin :: "write_event \<Rightarrow> pystr \<times> nat" where
  "origin ev = (src_file ev, src_row ev)"

definition origin_before :: "pystr \<times> nat \<Rightarrow> pystr \<times> nat \<Rightarrow> bool" where
  "origin_before a b \<longleftrightarrow> fst a < fst b \<or> (fst a = fst b \<and> snd a < snd b)"

text \<open>
  \<open>appends rows k st st'\<close>: from \<open>st\<close> to \<open>st'\<close> the writes were extended by one event
  for each element of \<open>rows\<close>, in that order, at consecutive destination rows starting at
  the cursor of \<open>st\<close>; the cursor moved by their number and \<open>k\<close> more files were counted
  as processed.
\<close>

definition appends :: "(pystr \<times> nat) list \<Rightarrow> nat \<Rightarrow> state \<Rightarrow> state \<Rightarrow> bool" where
  "appends rows k st st' \<longleftrightarrow>
     (\<exists>new. writes st' = writes st @ new \<and>
        map origin new = rows \<and>
        map dest_row new = [current_output_row st..<current_output_row st + length rows]) \<and>
     current_output_row st' = current_output_row st + length rows \<and>
     processed_files_count st' = processed_files_count st + k"

text \<open>The files whose processing was announced in a log, in order.\<close>

fun file_starts :: "log_entry list \<Rightarrow> pystr list" where
  "file_starts [] = []"
| "file_starts ((lvl, FileStart f) # es) = f # file_starts es"
| "file_starts (e # es) = file_starts es"

section \<open>Example inputs\<close>

definition blank_sheet :: sheet where
  "blank_sheet r c = PyNone"

text \<open>A data sheet with two valid rows, 19 and 20, and an ETD text in I11.\<close>

definition sheet_two_valid :: sheet where
  "sheet_two_valid r c =
     (if r = 19 \<or> r = 20 then
        (if c = 7 then PyStr (py ''knit'') else if c = 8 then PyStr (py ''red'')
         else if c = 9 then PyInt 50 else if c = 10 then PyInt 3 else PyNone)
      else if r = 11 \<and> c = 9 then PyStr (py ''2024.08.08.(AIR)'')
      else PyNone)"

text \<open>A data sheet with three rows that carry data, all with the text \<open>50\<close> as price.\<close>

definition sheet_none_valid :: sheet where
  "sheet_none_valid r c =
     (if 19 \<le> r \<and> r \<le> 21 then
        (if c = 9 then PyStr (py ''50'') else if c = 10 then PyInt 3 else PyNone)
      else PyNone)"


text \<open>Two files with two valid rows each.\<close>

definition both_valid_env :: env where
  "both_valid_env =
     \<lparr>load_workbook = (\<lambda>p.
        if p = py ''input/a.xlsx'' then Inr [(py ''ORD-1'', sheet_two_valid)]
        else if p = py ''input/b.xlsx'' then
          Inr [(py ''Sheet1'', sheet_two_valid), (py ''ORD-2'', blank_sheet)]
        else Inl FileNotFoundError),
      builtin_str = (\<lambda>v. [])\<rparr>"

definition example_ctx :: file_ctx where
  "example_ctx = \<lparr>ETD = None, BA = None, ORDER_NO = py ''ORD-2'', REMARK = PyNone\<rparr>"

text \<open>An input directory whose first file is not a zip archive.\<close>

definition corrupt_env :: env where
  "corrupt_env =
     \<lparr>load_workbook = (\<lambda>p.
        if p = py ''input/a.xlsx'' then Inl BadZipFile
        else Inr [(py ''Sheet1'', blank_sheet)]),
      builtin_str = (\<lambda>v. [])\<rparr>"

section \<open>Properties of the patterns\<close>

lemma rmatch_ngroups: "(g, r) \<in> set (rmatch p s) \<Longrightarrow> length g = ngroups p"
proof (induction p arbitrary: g r s)
  case (Cls c)
  then show ?case by (auto split: list.splits if_splits)
next
  case (Rep c m n)
  then show ?case by (auto simp: Let_def)
next
  case (Seq a b)
  from Seq.prems obtain g1 r1 g2 where a: "(g1, r1) \<in> set (rmatch a s)"
    and b: "(g2, r) \<in> set (rmatch b r1)" and g: "g = g1 @ g2"
    by auto
  from Seq.IH(1)[OF a] Seq.IH(2)[OF b] g show ?case by simp
next
  case (Grp a)
  from Grp.prems obtain g' where a: "(g', r) \<in> set (rmatch a s)"
    and g: "g = take (length s - length r) s # g'"
    by auto
  from Grp.IH[OF a] g show ?case by simp
qed

lemma re_search_ngroups: "re_search p s = Some m \<Longrightarrow> length m = ngroups p"
proof (induction s)
  case Nil
  then obtain x xs where x: "rmatch p [] = x # xs" and m: "m = fst x"
    by (auto split: list.splits)
  have "(fst x, snd x) \<in> set (rmatch p [])" using x by simp
  then show ?case using m rmatch_ngroups by blast
next
  case (Cons c cs)
  show ?case
  proof (cases "rmatch p (c # cs)")
    case Nil
    with Cons show ?thesis by simp
  next
    case (Cons x xs)
    with Cons.prems have m: "m = fst x" by simp
    have "(fst x, snd x) \<in> set (rmatch p (c # cs))" using Cons by simp
    then show ?thesis using m rmatch_ngroups by blast
  qed
qed

lemma etd_match_two_groups:
  assumes "etd_match s = Some m"
  shows "\<exists>date_str_raw ba_str. m = [date_str_raw, ba_str]"
proof -
  have n1: "ngroups etd_pattern = 2" and n2: "ngroups etd_pattern_alt = 2"
    by (simp_all add: etd_pattern_def etd_pattern_alt_def date_group_def ba_tail_def)
  from assms have "re_search etd_pattern s = Some m \<or> re_search etd_pattern_alt s = Some m"
    by (auto simp: etd_match_def split: option.splits)
  then have "length m = 2" using re_search_ngroups n1 n2 by metis
  then show ?thesis
    by (cases m; cases "tl m") (auto simp: length_Suc_conv)
qed

lemma strptime_only_ValueError: "strptime_Ymd s = Inl e \<Longrightarrow> e = ValueError"
  by (auto simp: strptime_Ymd_def Let_def split: list.splits if_splits)

lemma rmatch_Seq_nonempty:
  "rmatch (Seq a b) s \<noteq> [] \<longleftrightarrow> (\<exists>g r. (g, r) \<in> set (rmatch a s) \<and> rmatch b r \<noteq> [])"
proof -
  have "rmatch (Seq a b) s = [] \<longleftrightarrow> (\<forall>x \<in> set (rmatch a s). rmatch b (snd x) = [])"
    by (simp add: split_def)
  then show ?thesis by force
qed

text \<open>A repetition that may be empty can always be skipped.\<close>

lemma rmatch_optional_skip: "([], s) \<in> set (rmatch (Rep c 0 n) s)"
proof -
  have "([], s) \<in> set (map (\<lambda>j. ([]::pystr list, drop j s)) (rev [0..<Suc hi]))" for hi
  proof -
    have "(0::nat) \<in> set (rev [0..<Suc hi])" by auto
    then have "([], drop 0 s) \<in> (\<lambda>j. ([]::pystr list, drop j s)) ` set (rev [0..<Suc hi])"
      by (rule imageI)
    then show ?thesis by (simp only: set_map drop_0)
  qed
  then show ?thesis by (simp only: rmatch.simps Let_def)
qed

lemma rmatch_optional_prefix:
  assumes "rmatch b s \<noteq> []"
  shows "rmatch (Seq (Rep c 0 n) b) s \<noteq> []"
  unfolding rmatch_Seq_nonempty using assms rmatch_optional_skip by blast

lemma alt_match_imp_match:
  assumes "rmatch etd_pattern_alt s \<noteq> []"
  shows "rmatch etd_pattern s \<noteq> []"
proof -
  from assms obtain g r where gr: "(g, r) \<in> set (rmatch date_group s)"
    and tl: "rmatch ba_tail r \<noteq> []"
    unfolding etd_pattern_alt_def rmatch_Seq_nonempty by blast
  from tl have "rmatch (Seq (Rep (Lit 46) 0 (Some 1)) ba_tail) r \<noteq> []"
    by (rule rmatch_optional_prefix)
  with gr show ?thesis
    unfolding etd_pattern_def rmatch_Seq_nonempty by blast
qed

text \<open>A search finds nothing exactly when the pattern matches at no position.\<close>

lemma re_search_None_iff:
  "re_search p s = None \<longleftrightarrow> (\<forall>n \<le> length s. rmatch p (drop n s) = [])"
proof (induction s)
  case Nil
  show ?case by (simp split: list.splits)
next
  case (Cons x xs)
  have "(\<forall>n \<le> length (x # xs). rmatch p (drop n (x # xs)) = []) \<longleftrightarrow>
        rmatch p (x # xs) = [] \<and> (\<forall>n \<le> length xs. rmatch p (drop n xs) = [])"
    (is "?L \<longleftrightarrow> ?R")
  proof
    assume l: ?L
    have "rmatch p (drop 0 (x # xs)) = []" using l by blast
    moreover have "\<forall>n \<le> length xs. rmatch p (drop n xs) = []"
    proof (intro allI impI)
      fix n assume "n \<le> length xs"
      then have "rmatch p (drop (Suc n) (x # xs)) = []" using l by auto
      then show "rmatch p (drop n xs) = []" by simp
    qed
    ultimately show ?R by simp
  next
    assume r: ?R
    show ?L
    proof (intro allI impI)
      fix n assume "n \<le> length (x # xs)"
      then show "rmatch p (drop n (x # xs)) = []" using r by (cases n) auto
    qed
  qed
  with Cons.IH show ?case by (simp split: list.splits)
qed

lemma alt_search_imp_search:
  assumes "re_search etd_pattern s = None"
  shows "re_search etd_pattern_alt s = None"
  using assms alt_match_imp_match unfolding re_search_None_iff by blast

text \<open>The definitions to unfold when \<open>prep_etd\<close> is run on a given text.\<close>

lemmas prep_etd_eval =
  prep_etd_def prep_etd_first_only_def etd_match_def etd_of_match_def group_def
  strptime_Ymd_def py_def etd_pattern_def etd_pattern_alt_def date_group_def ba_tail_def
  is_space_def strftime_d_b_def month_abbr_def is_digits_def int_of_digits_def
  days_in_month_def is_leap_def

section \<open>Properties of \<open>prep_etd\<close>\<close>

text \<open>
  C6. On the text \<open>2024.08.08.(AIR)\<close>, \<open>prep_etd\<close> returns the date \<open>08-Aug\<close> and the
  tag \<open>AIR\<close>, and logs nothing.
\<close>

theorem prep_etd_air_example:
  "prep_etd (PyStr (py ''2024.08.08.(AIR)'')) = ((Some (py ''08-Aug''), Some (py ''AIR'')), [])"
  by (simp add: prep_etd_eval)

text \<open>
  C7. Whenever one of the two patterns matches a text and the captured date does not
  parse as year.month.day, the match has exactly the two groups date and tag, and
  \<open>prep_etd\<close> returns \<open>None\<close> for the date together with the captured tag, with one
  warning about the date. On \<open>2024.13.08.(AIR)\<close> it returns \<open>(None, AIR)\<close>.
\<close>

theorem prep_etd_keeps_tag_on_bad_date:
  "(etd_match s = Some m \<and> strptime_Ymd (hd m) = Inl e \<longrightarrow>
      (\<exists>date_str_raw ba_str. m = [date_str_raw, ba_str] \<and>
         prep_etd (PyStr s) =
           ((None, Some ba_str), [(WARNING, EtdDateError date_str_raw s)]))) \<and>
   fst (prep_etd (PyStr (py ''2024.13.08.(AIR)''))) = (None, Some (py ''AIR''))"
proof
  show "etd_match s = Some m \<and> strptime_Ymd (hd m) = Inl e \<longrightarrow>
      (\<exists>date_str_raw ba_str. m = [date_str_raw, ba_str] \<and>
         prep_etd (PyStr s) =
           ((None, Some ba_str), [(WARNING, EtdDateError date_str_raw s)]))"
  proof
    assume a: "etd_match s = Some m \<and> strptime_Ymd (hd m) = Inl e"
    then obtain d b where m: "m = [d, b]" using etd_match_two_groups by blast
    from a m have "strptime_Ymd d = Inl e" by simp
    moreover from this have "e = ValueError" by (rule strptime_only_ValueError)
    ultimately have
      "prep_etd (PyStr s) = ((None, Some b), [(WARNING, EtdDateError d s)])"
      using a m by (simp add: prep_etd_def etd_of_match_def group_def)
    with m show "\<exists>date_str_raw ba_str. m = [date_str_raw, ba_str] \<and>
         prep_etd (PyStr s) =
           ((None, Some ba_str), [(WARNING, EtdDateError date_str_raw s)])"
      by blast
  qed
next
  show "fst (prep_etd (PyStr (py ''2024.13.08.(AIR)''))) = (None, Some (py ''AIR''))"
    by (simp add: prep_etd_eval)
qed

theorem prep_etd_keeps_tag_on_bad_date_witness:
  "etd_match (py ''2023.2.29 (SEA)'') = Some [py ''2023.2.29'', py ''SEA''] \<and>
   strptime_Ymd (py ''2023.2.29'') = Inl ValueError \<and>
   prep_etd (PyStr (py ''2023.2.29 (SEA)'')) =
     ((None, Some (py ''SEA'')),
      [(WARNING, EtdDateError (py ''2023.2.29'') (py ''2023.2.29 (SEA)''))])"
proof -
  have m: "etd_match (py ''2023.2.29 (SEA)'') = Some [py ''2023.2.29'', py ''SEA'']"
    by (simp add: prep_etd_eval)
  have v: "strptime_Ymd (py ''2023.2.29'') = Inl ValueError"
    by (simp add: prep_etd_eval)
  then have v': "strptime_Ymd (hd [py ''2023.2.29'', py ''SEA'']) = Inl ValueError"
    by simp
  show ?thesis
    using m v v' prep_etd_keeps_tag_on_bad_date
      [of "py ''2023.2.29 (SEA)''" "[py ''2023.2.29'', py ''SEA'']" ValueError]
    by auto
qed

text \<open>
  C8. On an input that is not a text (\<open>None\<close> included), and on a text in which neither
  pattern matches, \<open>prep_etd\<close> returns \<open>(None, None)\<close>.
\<close>

theorem prep_etd_none_none:
  "(\<not> isinstance_str data \<longrightarrow> fst (prep_etd data) = (None, None)) \<and>
   (re_search etd_pattern s = None \<and> re_search etd_pattern_alt s = None \<longrightarrow>
      fst (prep_etd (PyStr s)) = (None, None))"
  by (cases data) (simp_all add: prep_etd_def etd_match_def)

theorem prep_etd_none_none_witness:
  "\<not> isinstance_str PyNone \<and> fst (prep_etd PyNone) = (None, None) \<and>
   re_search etd_pattern (py ''ETD 08.08 AIR'') = None \<and>
   re_search etd_pattern_alt (py ''ETD 08.08 AIR'') = None \<and>
   fst (prep_etd (PyStr (py ''ETD 08.08 AIR''))) = (None, None)"
proof -
  have a: "\<not> isinstance_str PyNone" by simp
  have b: "re_search etd_pattern (py ''ETD 08.08 AIR'') = None"
    by (simp add: prep_etd_eval)
  have c: "re_search etd_pattern_alt (py ''ETD 08.08 AIR'') = None"
    by (simp add: prep_etd_eval)
  show ?thesis
    using a b c prep_etd_none_none [of PyNone "py ''ETD 08.08 AIR''"] by blast
qed

text \<open>
  C10. The alternative pattern is redundant: a text in which the second pattern matches is
  a text in which the first matches, so \<open>prep_etd\<close>, with its two attempts, returns and
  logs the same as a single attempt with the first pattern.
\<close>

theorem second_pattern_redundant:
  "(re_search etd_pattern_alt s \<noteq> None \<longrightarrow> re_search etd_pattern s \<noteq> None) \<and>
   prep_etd data = prep_etd_first_only data"
proof
  show "re_search etd_pattern_alt s \<noteq> None \<longrightarrow> re_search etd_pattern s \<noteq> None"
  proof
    assume a: "re_search etd_pattern_alt s \<noteq> None"
    show "re_search etd_pattern s \<noteq> None"
    proof
      assume "re_search etd_pattern s = None"
      then have "re_search etd_pattern_alt s = None" by (rule alt_search_imp_search)
      with a show False by simp
    qed
  qed
next
  show "prep_etd data = prep_etd_first_only data"
  proof (cases data)
    case (PyStr t)
    show ?thesis
    proof (cases "re_search etd_pattern t")
      case None
      then have "re_search etd_pattern_alt t = None" by (rule alt_search_imp_search)
      with None PyStr show ?thesis
        by (simp add: prep_etd_def prep_etd_first_only_def etd_match_def)
    next
      case (Some m)
      with PyStr show ?thesis
        by (simp add: prep_etd_def prep_etd_first_only_def etd_match_def)
    qed
  qed (simp_all add: prep_etd_def prep_etd_first_only_def)
qed

theorem second_pattern_redundant_witness:
  "re_search etd_pattern_alt (py ''2024.8.8 (SEA)'') \<noteq> None \<and>
   re_search etd_pattern (py ''2024.8.8 (SEA)'') \<noteq> None \<and>
   prep_etd (PyStr (py ''2024.8.8 (SEA)'')) =
     prep_etd_first_only (PyStr (py ''2024.8.8 (SEA)''))"
proof -
  have h: "re_search etd_pattern_alt (py ''2024.8.8 (SEA)'') \<noteq> None"
    by (simp add: prep_etd_eval)
  show ?thesis
    using h second_pattern_redundant
      [of "py ''2024.8.8 (SEA)''" "PyStr (py ''2024.8.8 (SEA)'')"]
    by blast
qed

section \<open>Properties of the row validator\<close>

lemma strip_empty_iff: "strip s = [] \<longleftrightarrow> purely_whitespace s"
proof -
  have dw: "(\<forall>x \<in> set (dropWhile P xs). P x) \<longleftrightarrow> (\<forall>x \<in> set xs. P x)"
    for P and xs :: "nat list"
  proof
    assume a: "\<forall>x \<in> set (dropWhile P xs). P x"
    have "dropWhile P xs = []"
    proof (rule ccontr)
      assume ne: "dropWhile P xs \<noteq> []"
      then have "\<not> P (hd (dropWhile P xs))" by (rule hd_dropWhile)
      moreover have "hd (dropWhile P xs) \<in> set (dropWhile P xs)" using ne by simp
      ultimately show False using a by blast
    qed
    then show "\<forall>x \<in> set xs. P x" by (simp add: dropWhile_eq_Nil_conv)
  next
    assume "\<forall>x \<in> set xs. P x"
    then show "\<forall>x \<in> set (dropWhile P xs). P x" using set_dropWhileD by fastforce
  qed
  have "strip s = [] \<longleftrightarrow> (\<forall>x \<in> set (dropWhile is_space s). is_space x)"
    by (simp add: strip_def dropWhile_eq_Nil_conv)
  also have "\<dots> \<longleftrightarrow> (\<forall>x \<in> set s. is_space x)" by (rule dw)
  finally show ?thesis by (simp add: purely_whitespace_def list_all_iff)
qed

lemma has_data_iff:
  "has_data DETAIL COLOR PRICE SQNTY \<longleftrightarrow>
     (\<exists>val \<in> set [DETAIL, COLOR, PRICE, SQNTY].
        val \<noteq> PyNone \<and> (\<forall>s. val = PyStr s \<longrightarrow> \<not> purely_whitespace s))"
proof -
  have "(case val of PyStr s \<Rightarrow> strip s \<noteq> [] | _ \<Rightarrow> True) \<longleftrightarrow>
        (\<forall>s. val = PyStr s \<longrightarrow> \<not> purely_whitespace s)" for val
    by (cases val) (simp_all add: strip_empty_iff)
  then show ?thesis
    unfolding has_data_def list_ex_iff by simp
qed

lemma process_row_no_data:
  "\<not> has_data (sheet r 7) (sheet r 8) (sheet r 9) (sheet r 10) \<Longrightarrow>
   process_row filename sheet ctx r st = st"
  by (simp add: process_row_def)

lemma process_row_invalid:
  "has_data (sheet r 7) (sheet r 8) (sheet r 9) (sheet r 10) \<Longrightarrow>
   \<not> is_valid_numeric (sheet r 9) (sheet r 10) \<Longrightarrow>
   process_row filename sheet ctx r st =
     add_log (WARNING, RowSkipped r (sheet r 9) (sheet r 10))
       (st\<lparr>data_found_in_block := True\<rparr>)"
  by (simp add: process_row_def)

lemma is_valid_numeric_iff:
  "is_valid_numeric PRICE SQNTY \<longleftrightarrow>
     (intrinsically_numeric PRICE \<or> is_bool PRICE) \<and>
     (intrinsically_numeric SQNTY \<or> is_bool SQNTY)"
  by (cases PRICE; cases SQNTY)
     (simp_all add: is_valid_numeric_def intrinsically_numeric_def is_bool_def)

text \<open>
  C9. \<open>has_data\<close> holds exactly when one of the four values is not \<open>None\<close> and, when it
  is a text, is not purely whitespace; a row without data leaves the state as it is:
  nothing is logged, no flag changes, nothing is written.
\<close>

theorem has_data_characterised:
  "(has_data DETAIL COLOR PRICE SQNTY \<longleftrightarrow>
      (\<exists>val \<in> set [DETAIL, COLOR, PRICE, SQNTY].
         val \<noteq> PyNone \<and> (\<forall>s. val = PyStr s \<longrightarrow> \<not> purely_whitespace s))) \<and>
   (\<not> has_data (sheet r 7) (sheet r 8) (sheet r 9) (sheet r 10) \<longrightarrow>
      process_row filename sheet ctx r st = st)"
  using has_data_iff process_row_no_data by blast

theorem has_data_characterised_witness:
  "\<not> has_data (PyStr [9, 12288, 32]) PyNone (PyStr []) PyNone \<and>
   has_data (PyStr (py '' x '')) PyNone PyNone PyNone \<and>
   has_data PyNone PyNone (PyInt 0) PyNone \<and>
   \<not> has_data (blank_sheet 19 7) (blank_sheet 19 8) (blank_sheet 19 9) (blank_sheet 19 10) \<and>
   process_row (py ''a.xlsx'') blank_sheet example_ctx 19 initial_state = initial_state"
proof -
  have a: "\<not> has_data (PyStr [9, 12288, 32]) PyNone (PyStr []) PyNone"
    using has_data_characterised [of "PyStr [9, 12288, 32]" PyNone "PyStr []" PyNone]
    by (simp add: purely_whitespace_def is_space_def)
  have b: "has_data (PyStr (py '' x '')) PyNone PyNone PyNone"
    using has_data_characterised [of "PyStr (py '' x '')" PyNone PyNone PyNone]
    by (simp add: purely_whitespace_def is_space_def py_def)
  have c: "has_data PyNone PyNone (PyInt 0) PyNone"
    using has_data_characterised [of PyNone PyNone "PyInt 0" PyNone] by simp
  have d: "\<not> has_data (blank_sheet 19 7) (blank_sheet 19 8) (blank_sheet 19 9)
             (blank_sheet 19 10)"
    by (simp add: has_data_def blank_sheet_def)
  from d have e: "process_row (py ''a.xlsx'') blank_sheet example_ctx 19 initial_state =
      initial_state"
    using has_data_characterised [of _ _ _ _ blank_sheet 19 "py ''a.xlsx''" example_ctx
        initial_state]
    by blast
  from a b c d e show ?thesis by blast
qed

text \<open>
  C3, as stated, fails: the boolean \<open>True\<close> with an integer quantity passes
  \<open>is_valid_numeric\<close>, although a boolean is not of an intrinsically numeric kind.
\<close>

theorem bool_counts_as_numeric_counterexample:
  "is_valid_numeric (PyBool True) (PyInt 3) \<and>
   \<not> intrinsically_numeric (PyBool True) \<and>
   \<not> (is_valid_numeric (PyBool True) (PyInt 3) \<longleftrightarrow>
        intrinsically_numeric (PyBool True) \<and> intrinsically_numeric (PyInt 3))"
  by (simp add: is_valid_numeric_def intrinsically_numeric_def)

text \<open>
  C3, amended. \<open>is_valid_numeric\<close> holds exactly when price and quantity are both
  instances of \<open>int\<close> or \<open>float\<close>, that is integers, reals or booleans (\<open>bool\<close> is a
  subclass of \<open>int\<close>); a text never counts, whatever it looks like. A row that carries
  data and fails the test is skipped and counted as found but invalid: the flag
  \<open>data_found_in_block\<close> is set, one warning is logged, and nothing else changes (no
  write, the cursor stays).
\<close>

theorem is_valid_numeric_instances:
  "(is_valid_numeric PRICE SQNTY \<longleftrightarrow>
      (intrinsically_numeric PRICE \<or> is_bool PRICE) \<and>
      (intrinsically_numeric SQNTY \<or> is_bool SQNTY)) \<and>
   \<not> is_valid_numeric (PyStr s) SQNTY \<and> \<not> is_valid_numeric PRICE (PyStr s) \<and>
   (has_data (sheet r 7) (sheet r 8) (sheet r 9) (sheet r 10) \<and>
    \<not> is_valid_numeric (sheet r 9) (sheet r 10) \<longrightarrow>
      process_row filename sheet ctx r st =
        add_log (WARNING, RowSkipped r (sheet r 9) (sheet r 10))
          (st\<lparr>data_found_in_block := True\<rparr>))"
proof (intro conjI)
  show "is_valid_numeric PRICE SQNTY \<longleftrightarrow>
      (intrinsically_numeric PRICE \<or> is_bool PRICE) \<and>
      (intrinsically_numeric SQNTY \<or> is_bool SQNTY)"
    by (rule is_valid_numeric_iff)
next
  show "\<not> is_valid_numeric (PyStr s) SQNTY" by (simp add: is_valid_numeric_def)
next
  show "\<not> is_valid_numeric PRICE (PyStr s)" by (simp add: is_valid_numeric_def)
next
  show "has_data (sheet r 7) (sheet r 8) (sheet r 9) (sheet r 10) \<and>
    \<not> is_valid_numeric (sheet r 9) (sheet r 10) \<longrightarrow>
      process_row filename sheet ctx r st =
        add_log (WARNING, RowSkipped r (sheet r 9) (sheet r 10))
          (st\<lparr>data_found_in_block := True\<rparr>)"
    using process_row_invalid by blast
qed

theorem is_valid_numeric_instances_witness:
  "is_valid_numeric (PyInt 50) (PyFloat 0) \<and>
   is_valid_numeric (PyBool True) (PyInt 3) \<and>
   \<not> is_valid_numeric (PyStr (py ''50'')) (PyInt 3) \<and>
   has_data (sheet_none_valid 19 7) (sheet_none_valid 19 8) (sheet_none_valid 19 9)
     (sheet_none_valid 19 10) \<and>
   process_row (py ''b.xlsx'') sheet_none_valid example_ctx 19 initial_state =
     add_log (WARNING, RowSkipped 19 (PyStr (py ''50'')) (PyInt 3))
       (initial_state\<lparr>data_found_in_block := True\<rparr>)"
proof -
  have a: "is_valid_numeric (PyInt 50) (PyFloat 0)"
    using is_valid_numeric_instances [of "PyInt 50" "PyFloat 0"]
    by (simp add: intrinsically_numeric_def)
  have b: "is_valid_numeric (PyBool True) (PyInt 3)"
    using is_valid_numeric_instances [of "PyBool True" "PyInt 3"]
    by (simp add: intrinsically_numeric_def is_bool_def)
  have c: "\<not> is_valid_numeric (PyStr (py ''50'')) (PyInt 3)"
    using is_valid_numeric_instances [of _ "PyInt 3" "py ''50''"] by blast
  have v: "sheet_none_valid 19 7 = PyNone" "sheet_none_valid 19 8 = PyNone"
    "sheet_none_valid 19 9 = PyStr (py ''50'')" "sheet_none_valid 19 10 = PyInt 3"
    by (simp_all add: sheet_none_valid_def)
  have d: "has_data (sheet_none_valid 19 7) (sheet_none_valid 19 8) (sheet_none_valid 19 9)
     (sheet_none_valid 19 10)"
    unfolding v by (simp add: has_data_def strip_def py_def is_space_def)
  have e: "\<not> is_valid_numeric (sheet_none_valid 19 9) (sheet_none_valid 19 10)"
    unfolding v by (rule c)
  have "process_row (py ''b.xlsx'') sheet_none_valid example_ctx 19 initial_state =
     add_log (WARNING, RowSkipped 19 (sheet_none_valid 19 9) (sheet_none_valid 19 10))
       (initial_state\<lparr>data_found_in_block := True\<rparr>)"
    using d e is_valid_numeric_instances
      [of _ _ _ sheet_none_valid 19 "py ''b.xlsx''" example_ctx initial_state]
    by blast
  then have f: "process_row (py ''b.xlsx'') sheet_none_valid example_ctx 19 initial_state =
     add_log (WARNING, RowSkipped 19 (PyStr (py ''50'')) (PyInt 3))
       (initial_state\<lparr>data_found_in_block := True\<rparr>)"
    unfolding v .
  from a b c d f show ?thesis by blast
qed

section \<open>The writes of a batch\<close>

lemma appendsE:
  assumes "appends rows k st st'"
  obtains new where "writes st' = writes st @ new" and "map origin new = rows"
    and "map dest_row new = [current_output_row st..<current_output_row st + length rows]"
    and "current_output_row st' = current_output_row st + length rows"
    and "processed_files_count st' = processed_files_count st + k"
  using assms unfolding appends_def by (elim exE conjE) (rule that)

lemma appends_same:
  assumes "writes st' = writes st" and "current_output_row st' = current_output_row st"
    and "processed_files_count st' = processed_files_count st"
  shows "appends [] 0 st st'"
  using assms by (simp add: appends_def)

lemma appends_trans:
  assumes "appends xs j st st1" and "appends ys k st1 st2"
  shows "appends (xs @ ys) (j + k) st st2"
proof -
  from assms(1) obtain n1 where n1: "writes st1 = writes st @ n1" "map origin n1 = xs"
    "map dest_row n1 = [current_output_row st..<current_output_row st + length xs]"
    and c1: "current_output_row st1 = current_output_row st + length xs"
    and p1: "processed_files_count st1 = processed_files_count st + j"
    by (rule appendsE)
  from assms(2) obtain n2 where n2: "writes st2 = writes st1 @ n2" "map origin n2 = ys"
    "map dest_row n2 = [current_output_row st1..<current_output_row st1 + length ys]"
    and c2: "current_output_row st2 = current_output_row st1 + length ys"
    and p2: "processed_files_count st2 = processed_files_count st1 + k"
    by (rule appendsE)
  have "[current_output_row st..<current_output_row st + length xs] @
        [current_output_row st + length xs..<current_output_row st + length xs + length ys] =
        [current_output_row st..<current_output_row st + (length xs + length ys)]"
    using upt_add_eq_append
      [of "current_output_row st" "current_output_row st + length xs" "length ys"]
    by (simp add: add.assoc)
  then have "writes st2 = writes st @ (n1 @ n2) \<and>
        map origin (n1 @ n2) = xs @ ys \<and>
        map dest_row (n1 @ n2) =
          [current_output_row st..<current_output_row st + length (xs @ ys)]"
    using n1 n2 c1 by simp
  then show ?thesis
    unfolding appends_def using c1 c2 p1 p2 by (intro conjI exI[of _ "n1 @ n2"]) simp_all
qed

lemma appends_then_same:
  assumes "appends xs j st st1" and "appends [] 0 st1 st2"
  shows "appends xs j st st2"
  using appends_trans [OF assms] by simp

lemma appends_same_then:
  assumes "appends [] 0 st st1" and "appends xs j st1 st2"
  shows "appends xs j st st2"
  using appends_trans [OF assms] by simp

lemma process_row_appends:
  "appends (if row_accepted sheet r then [(filename, r)] else []) 0 st
     (process_row filename sheet ctx r st)"
  by (simp add: appends_def process_row_def row_accepted_def Let_def add_log_def origin_def)

lemma fold_process_row_appends:
  "appends (map (Pair filename) (filter (row_accepted sheet) rs)) 0 st
     (fold (process_row filename sheet ctx) rs st)"
proof (induction rs arbitrary: st)
  case Nil
  show ?case by (simp add: appends_same)
next
  case (Cons r rs)
  have "appends ((if row_accepted sheet r then [(filename, r)] else []) @
          map (Pair filename) (filter (row_accepted sheet) rs)) (0 + 0)
          st (fold (process_row filename sheet ctx) rs (process_row filename sheet ctx r st))"
    using process_row_appends Cons.IH by (rule appends_trans)
  then show ?case by (cases "row_accepted sheet r") simp_all
qed

lemma scan_block_appends:
  "appends (map (Pair filename) (valid_rows sheet)) 0 st (scan_block filename sheet ctx st)"
  unfolding valid_rows_def scanned_rows_def scan_block_def
  by (rule fold_process_row_appends)

lemma extract_etd_appends: "appends [] 0 st (snd (extract_etd E etd_data st))"
  by (rule appends_same)
     (simp_all add: extract_etd_def add_log_def Let_def split: prod.splits)

lemma block_summary_appends: "appends [] 0 st (block_summary f st)"
  by (rule appends_same) (simp_all add: block_summary_def add_log_def)

lemma extract_rows_appends:
  "appends (map (Pair filename) (valid_rows sheet)) 1 st
     (extract_rows E filename sheet order_no st)"
proof -
  obtain etd ba st1 where e: "extract_etd E (sheet 11 9) st = ((etd, ba), st1)"
    by (metis prod.exhaust)
  define st3 where
    "st3 = (add_log (INFO, CommonData order_no (sheet 22 1)) st1)\<lparr>data_found_in_block := False\<rparr>"
  define st4 where "st4 = scan_block filename sheet
     \<lparr>ETD = etd, BA = ba, ORDER_NO = order_no, REMARK = sheet 22 1\<rparr> st3"
  define st5 where "st5 = block_summary filename st4"
  define st6 where "st6 = st5\<lparr>processed_files_count := processed_files_count st5 + 1\<rparr>"
  have r: "extract_rows E filename sheet order_no st = st6"
    by (simp add: extract_rows_def e Let_def st3_def st4_def st5_def st6_def)
  have a1: "appends [] 0 st st1"
    using extract_etd_appends [of st E "sheet 11 9"] e by simp
  have a2: "appends [] 0 st1 st3"
    by (rule appends_same) (simp_all add: st3_def add_log_def)
  have a4: "appends (map (Pair filename) (valid_rows sheet)) 0 st3 st4"
    unfolding st4_def by (rule scan_block_appends)
  have a5: "appends [] 0 st4 st5"
    unfolding st5_def by (rule block_summary_appends)
  have a6: "appends [] 1 st5 st6"
    by (simp add: appends_def st6_def)
  have "appends (map (Pair filename) (valid_rows sheet)) 0 st st5"
    using a1 a2 a4 a5 by (blast intro: appends_then_same appends_same_then)
  then have "appends (map (Pair filename) (valid_rows sheet) @ []) (0 + 1) st st6"
    using a6 by (rule appends_trans)
  then show ?thesis using r by simp
qed

lemma zipfile_unbound: "''zipfile'' \<notin> set module_globals"
  by (simp add: module_globals_def)

lemma process_file_aborts:
  assumes "file_aborts E filename"
  shows "\<exists>st'. process_file E filename st = Raised NameError st' \<and> appends [] 0 st st'"
proof -
  from assms obtain e where l: "load_workbook E (path_join INPUT_DIR filename) = Inl e"
    and e: "e \<noteq> FileNotFoundError" "e \<noteq> KeyError"
    by (auto simp: file_aborts_def split: sum.splits)
  define st2 where "st2 = (add_log (INFO, FileStart filename) st)\<lparr>file_had_valid_data := False\<rparr>"
  have "process_file E filename st = Raised NameError st2"
    using l e zipfile_unbound
    by (simp add: process_file_def try_body_def except_clauses_def Let_def st2_def)
  moreover have "appends [] 0 st st2"
    by (rule appends_same) (simp_all add: st2_def add_log_def)
  ultimately show ?thesis by blast
qed

lemma process_file_skips:
  assumes "\<not> file_aborts E filename" and "data_sheet E filename = None"
  shows "\<exists>st'. process_file E filename st = Normal st' \<and> appends [] 0 st st'"
proof (cases "load_workbook E (path_join INPUT_DIR filename)")
  case (Inl e)
  with assms(1) have "e = FileNotFoundError \<or> e = KeyError"
    by (auto simp: file_aborts_def)
  then show ?thesis using Inl
    by (auto simp: process_file_def try_body_def except_clauses_def Let_def add_log_def
        intro!: appends_same)
next
  case (Inr wb)
  with assms(2) have "wb = []"
    by (auto simp: data_sheet_def split: list.splits)
  with Inr show ?thesis
    by (auto simp: process_file_def try_body_def Let_def add_log_def intro!: appends_same)
qed

lemma process_file_extracts:
  assumes "data_sheet E filename = Some sh"
  shows "\<exists>st'. process_file E filename st = Normal st' \<and>
           appends (map (Pair filename) (valid_rows sh)) 1 st st'"
proof -
  from assms obtain title rest where
    l: "load_workbook E (path_join INPUT_DIR filename) = Inr ((title, sh) # rest)"
    by (auto simp: data_sheet_def split: sum.splits list.splits)
  define st3 where "st3 = add_log (INFO, UsingFirstSheet filename title)
     ((add_log (INFO, FileStart filename) st)\<lparr>file_had_valid_data := False\<rparr>)"
  define order_no where "order_no = last (title # map fst rest)"
  have p: "process_file E filename st = Normal (extract_rows E filename sh order_no st3)"
    using l by (simp add: process_file_def try_body_def Let_def st3_def order_no_def)
  have "appends [] 0 st st3"
    by (rule appends_same) (simp_all add: st3_def add_log_def)
  then have "appends (map (Pair filename) (valid_rows sh)) 1 st
      (extract_rows E filename sh order_no st3)"
    using extract_rows_appends by (rule appends_same_then)
  with p show ?thesis by blast
qed

lemma process_file_Normal:
  assumes "\<not> file_aborts E filename"
  shows "\<exists>st'. process_file E filename st = Normal st' \<and>
     appends (file_rows E filename) (if data_sheet E filename = None then 0 else 1) st st'"
proof (cases "data_sheet E filename")
  case None
  with assms process_file_skips [of E filename st] show ?thesis
    by (simp add: file_rows_def)
next
  case (Some sh)
  with process_file_extracts [of E filename sh st] show ?thesis
    by (simp add: file_rows_def)
qed

lemma batch_loop_appends:
  "appends (concat (map (file_rows E) (takeWhile (\<lambda>f. \<not> file_aborts E f) fs)))
     (length (filter (\<lambda>f. data_sheet E f \<noteq> None) (takeWhile (\<lambda>f. \<not> file_aborts E f) fs)))
     st (final_state (batch_loop E fs st))"
proof (induction fs arbitrary: st)
  case Nil
  show ?case by (simp add: appends_same)
next
  case (Cons f fs)
  show ?case
  proof (cases "file_aborts E f")
    case True
    with process_file_aborts [of E f st] show ?thesis by auto
  next
    case False
    then obtain st' where p: "process_file E f st = Normal st'"
      and a: "appends (file_rows E f) (if data_sheet E f = None then 0 else 1) st st'"
      using process_file_Normal by blast
    from a Cons.IH [of st'] have
      "appends (file_rows E f @ concat (map (file_rows E) (takeWhile (\<lambda>f. \<not> file_aborts E f) fs)))
         ((if data_sheet E f = None then 0 else 1) +
          length (filter (\<lambda>f. data_sheet E f \<noteq> None) (takeWhile (\<lambda>f. \<not> file_aborts E f) fs)))
         st (final_state (batch_loop E fs st'))"
      by (rule appends_trans)
    with False p show ?thesis by (cases "data_sheet E f") simp_all
  qed
qed

lemma run_appends:
  "appends (expected_rows E input_files) (length (successfully_processed E input_files))
     initial_state (final_state (run E input_files))"
  unfolding expected_rows_def successfully_processed_def files_completed_def run_def
  by (rule batch_loop_appends)




lemma START_ROW_TEMPLATE_initial:
  "current_output_row initial_state = 7" "writes initial_state = []"
  "processed_files_count initial_state = 0"
  by (simp_all add: initial_state_def START_ROW_TEMPLATE_def)

lemma run_origins:
  "map origin (writes (final_state (run E input_files))) = expected_rows E input_files"
proof -
  from run_appends [of E input_files] obtain new where
    "writes (final_state (run E input_files)) = writes initial_state @ new"
    and "map origin new = expected_rows E input_files"
    by (rule appendsE)
  then show ?thesis by (simp add: START_ROW_TEMPLATE_initial)
qed

lemma appends_cursor:
  assumes "appends rows k st st'"
  shows "\<exists>new. writes st' = writes st @ new \<and>
           current_output_row st' = current_output_row st + length new \<and>
           map dest_row new = [current_output_row st..<current_output_row st + length new]"
proof -
  from assms obtain new where w: "writes st' = writes st @ new"
    and o: "map origin new = rows"
    and d: "map dest_row new = [current_output_row st..<current_output_row st + length rows]"
    and c: "current_output_row st' = current_output_row st + length rows"
    by (rule appendsE)
  from o have "length new = length rows" by (metis length_map)
  with w d c show ?thesis by simp
qed

lemma process_file_final_appends:
  "\<exists>rows k. appends rows k st (final_state (process_file E filename st))"
proof (cases "file_aborts E filename")
  case True
  with process_file_aborts [of E filename st] obtain st' where
    "process_file E filename st = Raised NameError st'" and "appends [] 0 st st'"
    by blast
  then have "appends [] 0 st (final_state (process_file E filename st))" by simp
  then show ?thesis by blast
next
  case False
  with process_file_Normal [of E filename st] obtain st' where
    "process_file E filename st = Normal st'"
    and "appends (file_rows E filename) (if data_sheet E filename = None then 0 else 1) st st'"
    by blast
  then have "appends (file_rows E filename) (if data_sheet E filename = None then 0 else 1)
      st (final_state (process_file E filename st))" by simp
  then show ?thesis by blast
qed

section \<open>Order of the writes and of the files\<close>

lemma file_starts_append: "file_starts (xs @ ys) = file_starts xs @ file_starts ys"
  by (induction xs rule: file_starts.induct) simp_all

lemma file_starts_prep_etd: "file_starts (snd (prep_etd data)) = []"
  by (cases data)
     (simp_all add: prep_etd_def etd_of_match_def split: option.splits sum.splits)

lemma file_starts_add_log:
  "file_starts (log (add_log entry st)) = file_starts (log st) @ file_starts [entry]"
  by (simp add: add_log_def file_starts_append)

lemma file_starts_process_row:
  "file_starts (log (process_row filename sheet ctx r st)) = file_starts (log st)"
  by (simp add: process_row_def Let_def file_starts_add_log file_starts_append)

lemma file_starts_scan_block:
  "file_starts (log (scan_block filename sheet ctx st)) = file_starts (log st)"
proof -
  have "file_starts (log (fold (process_row filename sheet ctx) rs st)) = file_starts (log st)"
    for rs
    by (induction rs arbitrary: st) (simp_all add: file_starts_process_row)
  then show ?thesis by (simp add: scan_block_def)
qed

lemma file_starts_extract_etd:
  "file_starts (log (snd (extract_etd E etd_data st))) = file_starts (log st)"
proof (cases "etd_data = PyNone")
  case True
  then show ?thesis by (simp add: extract_etd_def file_starts_add_log)
next
  case False
  obtain etd ba msgs where p: "prep_etd (PyStr (py_str E etd_data)) = ((etd, ba), msgs)"
    by (metis prod.exhaust)
  with file_starts_prep_etd [of "PyStr (py_str E etd_data)"] have "file_starts msgs = []"
    by simp
  with False p show ?thesis
    by (simp add: extract_etd_def Let_def file_starts_add_log file_starts_append)
qed

lemma file_starts_block_summary:
  "file_starts (log (block_summary filename st)) = file_starts (log st)"
  by (simp add: block_summary_def file_starts_add_log)

lemma file_starts_extract_rows:
  "file_starts (log (extract_rows E filename sheet order_no st)) = file_starts (log st)"
proof -
  obtain etd ba st1 where e: "extract_etd E (sheet 11 9) st = ((etd, ba), st1)"
    by (metis prod.exhaust)
  with file_starts_extract_etd [of E "sheet 11 9" st]
  have "file_starts (log st1) = file_starts (log st)" by simp
  then show ?thesis
    by (simp add: extract_rows_def e Let_def file_starts_block_summary
        file_starts_scan_block file_starts_add_log)
qed

lemma file_starts_process_file:
  "file_starts (log (final_state (process_file E filename st))) =
     file_starts (log st) @ [filename]"
proof (cases "load_workbook E (path_join INPUT_DIR filename)")
  case (Inl e)
  then show ?thesis
    by (simp add: process_file_def try_body_def except_clauses_def Let_def
        file_starts_add_log)
next
  case (Inr wb)
  show ?thesis
  proof (cases wb)
    case Nil
    with Inr show ?thesis
      by (simp add: process_file_def try_body_def Let_def file_starts_add_log)
  next
    case (Cons x rest)
    obtain title sh where x: "x = (title, sh)" by (cases x)
    with Inr Cons show ?thesis
      by (simp add: process_file_def try_body_def Let_def file_starts_add_log
          file_starts_extract_rows)
  qed
qed

lemma process_file_Raised_iff:
  "(\<exists>e st'. process_file E filename st = Raised e st') \<longleftrightarrow> file_aborts E filename"
proof (cases "file_aborts E filename")
  case True
  with process_file_aborts [of E filename st] show ?thesis by auto
next
  case False
  with process_file_Normal [of E filename st] show ?thesis by auto
qed

lemma file_starts_batch_loop:
  "file_starts (log (final_state (batch_loop E fs st))) =
     file_starts (log st) @ take (Suc (length (takeWhile (\<lambda>f. \<not> file_aborts E f) fs))) fs"
proof (induction fs arbitrary: st)
  case Nil
  show ?case by simp
next
  case (Cons f fs)
  show ?case
  proof (cases "process_file E f st")
    case (Normal st')
    then have na: "\<not> file_aborts E f" using process_file_Raised_iff [of E f st] by auto
    from Normal file_starts_process_file [of E f st]
    have "file_starts (log st') = file_starts (log st) @ [f]" by simp
    with Normal na Cons.IH [of st'] show ?thesis by simp
  next
    case (Raised e st')
    then have a: "file_aborts E f" using process_file_Raised_iff [of E f st] by auto
    from Raised file_starts_process_file [of E f st]
    have "file_starts (log st') = file_starts (log st) @ [f]" by simp
    with Raised a show ?thesis by simp
  qed
qed

lemma sorted_file_rows: "sorted_wrt origin_before (file_rows E f)"
proof (cases "data_sheet E f")
  case None
  then show ?thesis by (simp add: file_rows_def)
next
  case (Some sh)
  have "sorted_wrt (<) (valid_rows sh)"
    unfolding valid_rows_def scanned_rows_def by (rule sorted_wrt_filter) (rule sorted_wrt_upt)
  then have "sorted_wrt (\<lambda>x y. origin_before (f, x) (f, y)) (valid_rows sh)"
    by (rule sorted_wrt_mono_rel [rotated]) (simp add: origin_before_def)
  with Some show ?thesis by (simp add: file_rows_def sorted_wrt_map)
qed

lemma fst_file_rows: "x \<in> set (file_rows E f) \<Longrightarrow> fst x = f"
  by (auto simp: file_rows_def split: option.splits)

lemma sorted_concat_file_rows:
  "sorted_wrt (<) fs \<Longrightarrow> sorted_wrt origin_before (concat (map (file_rows E) fs))"
proof (induction fs)
  case Nil
  show ?case by simp
next
  case (Cons f fs)
  have "origin_before x y"
    if "x \<in> set (file_rows E f)" and "y \<in> set (concat (map (file_rows E) fs))" for x y
  proof -
    from that(2) obtain g where g: "g \<in> set fs" and y: "y \<in> set (file_rows E g)" by auto
    from Cons.prems g have "f < g" by simp
    with fst_file_rows [OF that(1)] fst_file_rows [OF y] show ?thesis
      by (simp add: origin_before_def)
  qed
  with Cons sorted_file_rows [of E f] show ?case
    by (simp add: sorted_wrt_append)
qed

lemma sorted_expected_rows:
  assumes "distinct input_files"
  shows "sorted_wrt origin_before (expected_rows E input_files)"
proof -
  from assms have "sorted_wrt (<) (sort input_files)"
    by (simp add: strict_sorted_iff)
  then have "sorted_wrt (<) (files_completed E input_files)"
    unfolding files_completed_def by (rule sorted_wrt_takeWhile)
  then show ?thesis
    unfolding expected_rows_def by (rule sorted_concat_file_rows)
qed

section \<open>The example batches\<close>

lemma sort_example: "sort [py ''b.xlsx'', py ''a.xlsx''] = [py ''a.xlsx'', py ''b.xlsx'']"
  by (simp add: py_def)



lemma upt_split: "i \<le> j \<Longrightarrow> j \<le> k \<Longrightarrow> [i..<k] = [i..<j] @ [j..<k]"
  using upt_add_eq_append [of i j "k - j"] by simp

lemma row_accepted_two_valid: "row_accepted sheet_two_valid r \<longleftrightarrow> r = 19 \<or> r = 20"
  by (simp add: row_accepted_def sheet_two_valid_def has_data_def is_valid_numeric_def
      strip_def py_def is_space_def)

lemma row_accepted_none_valid: "\<not> row_accepted sheet_none_valid r"
  by (simp add: row_accepted_def sheet_none_valid_def is_valid_numeric_def)

lemma scanned_rows_eq: "scanned_rows = [19..<1001]"
  by (simp add: scanned_rows_def DATA_BLOCK_START_ROW_def DATA_BLOCK_END_ROW_def
      del: upt_rec_numeral)

lemma valid_rows_two_valid: "valid_rows sheet_two_valid = [19, 20]"
proof -
  have s: "scanned_rows = [19..<21] @ [21..<1001]"
    using upt_split [of 19 21 1001] by (simp add: scanned_rows_eq del: upt_rec_numeral)
  have a: "filter (row_accepted sheet_two_valid) [21..<1001] = []"
    unfolding filter_empty_conv set_upt by (simp add: row_accepted_two_valid)
  have b: "filter (row_accepted sheet_two_valid) [19..<21] = [19, 20]"
    by (simp add: row_accepted_two_valid)
  show ?thesis
    unfolding valid_rows_def s filter_append a b by simp
qed





lemma expected_rows_both_valid:
  "expected_rows both_valid_env [py ''b.xlsx'', py ''a.xlsx''] =
     [(py ''a.xlsx'', 19), (py ''a.xlsx'', 20), (py ''b.xlsx'', 19), (py ''b.xlsx'', 20)]"
proof -
  have d: "data_sheet both_valid_env (py ''a.xlsx'') = Some sheet_two_valid"
    "data_sheet both_valid_env (py ''b.xlsx'') = Some sheet_two_valid"
    by (simp_all add: data_sheet_def both_valid_env_def path_join_def INPUT_DIR_def py_def)
  have c: "files_completed both_valid_env [py ''b.xlsx'', py ''a.xlsx''] =
      [py ''a.xlsx'', py ''b.xlsx'']"
    by (simp add: files_completed_def file_aborts_def both_valid_env_def path_join_def
        INPUT_DIR_def py_def)
  show ?thesis
    unfolding expected_rows_def c by (simp add: file_rows_def d valid_rows_two_valid)
qed

section \<open>Properties of the batch\<close>



text \<open>
  C4. The cursor starts at 7. A row step either writes one event at the cursor and moves
  the cursor by one, or writes nothing and leaves the cursor. A file step and the loop
  over any list of files, from any state, only add writes and move the cursor by the
  number of writes added, so the cursor never decreases and is never reset between files.
  At the end of a run the cursor is 7 plus the number of writes, and the writes are at
  the rows 7, 8, 9, ... in order.
\<close>

theorem output_cursor_steps:
  "current_output_row initial_state = 7 \<and>
   (if row_accepted sheet r
    then (\<exists>ev. writes (process_row filename sheet ctx r st) = writes st @ [ev] \<and>
            dest_row ev = current_output_row st) \<and>
         current_output_row (process_row filename sheet ctx r st) = current_output_row st + 1
    else writes (process_row filename sheet ctx r st) = writes st \<and>
         current_output_row (process_row filename sheet ctx r st) = current_output_row st) \<and>
   (\<exists>new. writes (final_state (process_file E filename st)) = writes st @ new \<and>
      current_output_row (final_state (process_file E filename st)) =
        current_output_row st + length new) \<and>
   (\<exists>new. writes (final_state (batch_loop E files st)) = writes st @ new \<and>
      current_output_row (final_state (batch_loop E files st)) =
        current_output_row st + length new) \<and>
   current_output_row (final_state (run E input_files)) =
     7 + length (writes (final_state (run E input_files))) \<and>
   map dest_row (writes (final_state (run E input_files))) =
     [7..<7 + length (writes (final_state (run E input_files)))]"
proof (intro conjI)
  show "current_output_row initial_state = 7"
    by (simp add: START_ROW_TEMPLATE_initial)
next
  show "if row_accepted sheet r
    then (\<exists>ev. writes (process_row filename sheet ctx r st) = writes st @ [ev] \<and>
            dest_row ev = current_output_row st) \<and>
         current_output_row (process_row filename sheet ctx r st) = current_output_row st + 1
    else writes (process_row filename sheet ctx r st) = writes st \<and>
         current_output_row (process_row filename sheet ctx r st) = current_output_row st"
    by (simp add: process_row_def row_accepted_def Let_def add_log_def)
next
  from process_file_final_appends obtain rows k where
    "appends rows k st (final_state (process_file E filename st))" by blast
  from appends_cursor [OF this]
  show "\<exists>new. writes (final_state (process_file E filename st)) = writes st @ new \<and>
      current_output_row (final_state (process_file E filename st)) =
        current_output_row st + length new" by blast
next
  from appends_cursor [OF batch_loop_appends [of E files st]]
  show "\<exists>new. writes (final_state (batch_loop E files st)) = writes st @ new \<and>
      current_output_row (final_state (batch_loop E files st)) =
        current_output_row st + length new" by blast
next
  from appends_cursor [OF run_appends [of E input_files]]
  show "current_output_row (final_state (run E input_files)) =
     7 + length (writes (final_state (run E input_files)))"
    by (auto simp: START_ROW_TEMPLATE_initial)
next
  from appends_cursor [OF run_appends [of E input_files]]
  show "map dest_row (writes (final_state (run E input_files))) =
     [7..<7 + length (writes (final_state (run E input_files)))]"
    by (auto simp: START_ROW_TEMPLATE_initial)
qed

theorem output_cursor_steps_witness:
  "row_accepted sheet_two_valid 19 \<and>
   current_output_row (process_row (py ''a.xlsx'') sheet_two_valid example_ctx 19 initial_state) = 8 \<and>
   \<not> row_accepted sheet_none_valid 19 \<and>
   current_output_row (process_row (py ''b.xlsx'') sheet_none_valid example_ctx 19 initial_state) = 7"
  using output_cursor_steps [of sheet_two_valid 19 "py ''a.xlsx''" example_ctx initial_state]
        output_cursor_steps [of sheet_none_valid 19 "py ''b.xlsx''" example_ctx initial_state]
  by (simp add: row_accepted_two_valid row_accepted_none_valid)

text \<open>
  C5. For input files with distinct names (as a directory listing gives them): the writes
  are in strictly ascending order of (file name, input row), so the rows of a file sorted
  earlier come before those of a file sorted later and the rows of one file are in
  ascending input row order; the k-th write (from 0) is at row 7 + k; the files are
  started in sorted order (all of them, or those up to the first file that aborts the
  run); and the loop, from any state and over any files, keeps the writes it finds and
  only appends to them.
\<close>

theorem output_order:
  assumes "distinct input_files"
  shows "sorted_wrt (\<lambda>a b. src_file a < src_file b \<or>
                       (src_file a = src_file b \<and> src_row a < src_row b))
           (writes (final_state (run E input_files))) \<and>
         map dest_row (writes (final_state (run E input_files))) =
           [7..<7 + length (writes (final_state (run E input_files)))] \<and>
         file_starts (log (final_state (run E input_files))) =
           take (Suc (length (files_completed E input_files))) (sort input_files) \<and>
         (\<exists>new. writes (final_state (batch_loop E files st)) = writes st @ new)"
proof (intro conjI)
  from run_appends [of E input_files] obtain new where
    w: "writes (final_state (run E input_files)) = writes initial_state @ new"
    and o: "map origin new = expected_rows E input_files"
    by (rule appendsE)
  from assms have "sorted_wrt origin_before (map origin new)"
    unfolding o by (rule sorted_expected_rows)
  then have "sorted_wrt (\<lambda>a b. origin_before (origin a) (origin b)) new"
    by (simp add: sorted_wrt_map)
  then show "sorted_wrt (\<lambda>a b. src_file a < src_file b \<or>
                       (src_file a = src_file b \<and> src_row a < src_row b))
           (writes (final_state (run E input_files)))"
    using w by (simp add: origin_before_def origin_def START_ROW_TEMPLATE_initial)
next
  from appends_cursor [OF run_appends [of E input_files]]
  show "map dest_row (writes (final_state (run E input_files))) =
     [7..<7 + length (writes (final_state (run E input_files)))]"
    by (auto simp: START_ROW_TEMPLATE_initial)
next
  show "file_starts (log (final_state (run E input_files))) =
           take (Suc (length (files_completed E input_files))) (sort input_files)"
    using file_starts_batch_loop [of E "sort input_files" initial_state]
    by (simp add: run_def files_completed_def initial_state_def)
next
  from appends_cursor [OF batch_loop_appends [of E files st]]
  show "\<exists>new. writes (final_state (batch_loop E files st)) = writes st @ new"
    by blast
qed

theorem output_order_witness:
  "distinct [py ''b.xlsx'', py ''a.xlsx''] \<and>
   map origin (writes (final_state (run both_valid_env [py ''b.xlsx'', py ''a.xlsx'']))) =
     [(py ''a.xlsx'', 19), (py ''a.xlsx'', 20), (py ''b.xlsx'', 19), (py ''b.xlsx'', 20)] \<and>
   sorted_wrt (\<lambda>a b. src_file a < src_file b \<or>
                       (src_file a = src_file b \<and> src_row a < src_row b))
           (writes (final_state (run both_valid_env [py ''b.xlsx'', py ''a.xlsx'']))) \<and>
   map dest_row (writes (final_state (run both_valid_env [py ''b.xlsx'', py ''a.xlsx'']))) =
     [7, 8, 9, 10] \<and>
   file_starts (log (final_state (run both_valid_env [py ''b.xlsx'', py ''a.xlsx'']))) =
     [py ''a.xlsx'', py ''b.xlsx'']"
proof -
  have d: "distinct [py ''b.xlsx'', py ''a.xlsx'']" by (simp add: py_def)
  have o: "map origin (writes (final_state (run both_valid_env [py ''b.xlsx'', py ''a.xlsx'']))) =
     [(py ''a.xlsx'', 19), (py ''a.xlsx'', 20), (py ''b.xlsx'', 19), (py ''b.xlsx'', 20)]"
    unfolding run_origins by (rule expected_rows_both_valid)
  then have "length (map origin
      (writes (final_state (run both_valid_env [py ''b.xlsx'', py ''a.xlsx''])))) = 4"
    by simp
  then have n: "length (writes (final_state (run both_valid_env [py ''b.xlsx'', py ''a.xlsx'']))) = 4"
    by simp
  have u: "[7..<11] = [7, 8, 9, 10::nat]" by (simp add: upt_rec)
  from output_order [OF d, of both_valid_env]
  have "sorted_wrt (\<lambda>a b. src_file a < src_file b \<or>
                       (src_file a = src_file b \<and> src_row a < src_row b))
           (writes (final_state (run both_valid_env [py ''b.xlsx'', py ''a.xlsx'']))) \<and>
        map dest_row (writes (final_state (run both_valid_env [py ''b.xlsx'', py ''a.xlsx'']))) =
          [7, 8, 9, 10] \<and>
        file_starts (log (final_state (run both_valid_env [py ''b.xlsx'', py ''a.xlsx'']))) =
          take (Suc (length (files_completed both_valid_env [py ''b.xlsx'', py ''a.xlsx''])))
            [py ''a.xlsx'', py ''b.xlsx'']"
    unfolding n sort_example by (simp add: u del: upt_rec_numeral)
  moreover have "take (Suc (length (files_completed both_valid_env [py ''b.xlsx'', py ''a.xlsx''])))
            [py ''a.xlsx'', py ''b.xlsx''] = [py ''a.xlsx'', py ''b.xlsx'']"
    by (simp add: files_completed_def file_aborts_def both_valid_env_def path_join_def
        INPUT_DIR_def py_def)
  ultimately show ?thesis using d o by simp
qed

text \<open>
  C2 does not hold for a corrupt archive or an unexpected exception: the clause
  \<open>except zipfile.BadZipFile\<close> refers to a module the script never imports. With a first
  file that is not a zip archive, the run ends with NameError after the first file is
  announced; the second file is never started.
\<close>

theorem corrupt_archive_aborts_batch:
  "run corrupt_env [py ''a.xlsx'', py ''b.xlsx''] =
     Raised NameError
       \<lparr>writes = [], current_output_row = 7, processed_files_count = 0,
        file_had_valid_data = False, data_found_in_block = False,
        log = [(INFO, FileStart (py ''a.xlsx''))]\<rparr>"
  by (simp add: run_def process_file_def try_body_def except_clauses_def corrupt_env_def
      initial_state_def START_ROW_TEMPLATE_def add_log_def path_join_def INPUT_DIR_def
      py_def module_globals_def)

end
